theory Spec2Isabelle
  imports
    Main
    "HOL-Library.List_Lexorder"
    "HOL-Library.Sublist"
    "HOL-Library.Multiset"
begin

section \<open>The parking auction monitor (parking\_auction\_monitor.py)\<close>

text \<open>
  The script is one pipeline: load the record store, fetch the listing page, extract the
  table rows, match the configured search combinations, sort, drop rows already sent,
  keep the recent ones, write the subject and body files, update the record store.

  A Python string is the list of its code points. What Python takes from the Unicode
  character database when it lowers a string or reads a digit is the record \<open>ucd\<close>, a
  parameter of the model. The outside world of one run (clock, network, JSON library,
  which file operations fail) is the record \<open>env\<close>; the files on disk are a map from file
  names to their text, passed through the functions that write them. Logging is not
  modelled.
\<close>

subsection \<open>Strings\<close>

type_synonym str = "nat list"

text \<open>An ASCII literal of the source, as code points.\<close>

definition asc :: "string \<Rightarrow> str" where
  "asc s = map of_char s"

text \<open>
  The tables of the Unicode database that \<open>str.lower\<close>, the pattern \<open>\d\<close> and \<open>int\<close> consult:
  the full lower-case mapping of a code point (one to three code points), the properties
  Cased and Case\_Ignorable, and the value of a decimal digit.
\<close>

record ucd =
  ucd_lower :: "nat \<Rightarrow> nat list"
  ucd_cased :: "nat \<Rightarrow> bool"
  ucd_case_ignorable :: "nat \<Rightarrow> bool"
  ucd_decimal :: "nat \<Rightarrow> int option"

text \<open>
  \<open>str.lower\<close>. Every code point is replaced by its full lower-case mapping, except the
  capital sigma U+03A3: it becomes the final sigma U+03C2 when the nearest code point
  before it that is not case-ignorable exists and is cased, and the nearest such code
  point after it does not exist or is not cased; it becomes U+03C3 otherwise. The second
  argument of \<open>do_lower\<close> holds the code points already passed, nearest first.
\<close>

definition final_sigma :: "ucd \<Rightarrow> str \<Rightarrow> str \<Rightarrow> bool" where
  "final_sigma u seen rest =
     ((case dropWhile (ucd_case_ignorable u) seen of [] \<Rightarrow> False | c # cs \<Rightarrow> ucd_cased u c)
      \<and> (case dropWhile (ucd_case_ignorable u) rest of [] \<Rightarrow> True | c # cs \<Rightarrow> \<not> ucd_cased u c))"

fun do_lower :: "ucd \<Rightarrow> str \<Rightarrow> str \<Rightarrow> str" where
  "do_lower u seen [] = []"
| "do_lower u seen (c # cs) =
     (if c = 0x3A3 then [if final_sigma u seen cs then 0x3C2 else 0x3C3] else ucd_lower u c)
     @ do_lower u (c # seen) cs"

definition lower :: "ucd \<Rightarrow> str \<Rightarrow> str" where
  "lower u s = do_lower u [] s"

text \<open>\<open>needle in haystack\<close> on strings: the needle starts at some position.\<close>

fun startswith :: "str \<Rightarrow> str \<Rightarrow> bool" where
  "startswith s [] = True"
| "startswith [] (n # ns) = False"
| "startswith (c # cs) (n # ns) = (c = n \<and> startswith cs ns)"

fun str_in :: "str \<Rightarrow> str \<Rightarrow> bool" where
  "str_in needle [] = (needle = [])"
| "str_in needle (c # cs) = (startswith (c # cs) needle \<or> str_in needle cs)"

text \<open>\<open>str.strip()\<close> removes, at both ends, the code points for which \<open>str.isspace\<close> holds.\<close>

definition is_space :: "nat \<Rightarrow> bool" where
  "is_space c =
     (c \<in> set [0x09, 0x0A, 0x0B, 0x0C, 0x0D, 0x1C, 0x1D, 0x1E, 0x1F, 0x20, 0x85, 0xA0,
               0x1680, 0x2000, 0x2001, 0x2002, 0x2003, 0x2004, 0x2005, 0x2006, 0x2007,
               0x2008, 0x2009, 0x200A, 0x2028, 0x2029, 0x202F, 0x205F, 0x3000])"

definition strip :: "str \<Rightarrow> str" where
  "strip s = rev (dropWhile is_space (rev (dropWhile is_space s)))"

text \<open>\<open>sep.join(xs)\<close>.\<close>

fun join :: "str \<Rightarrow> str list \<Rightarrow> str" where
  "join sep [] = []"
| "join sep [x] = x"
| "join sep (x # y # ys) = x @ sep @ join sep (y # ys)"

text \<open>\<open>str(n)\<close> for a length.\<close>

function str_nat :: "nat \<Rightarrow> str" where
  "str_nat n = (if n < 10 then [0x30 + n] else str_nat (n div 10) @ [0x30 + n mod 10])"
  by pat_completeness auto
termination
  by (relation "measure id") auto

text \<open>An f-string field holding a string or \<open>None\<close>.\<close>

definition fmt_opt :: "str option \<Rightarrow> str" where
  "fmt_opt v = (case v of None \<Rightarrow> asc ''None'' | Some s \<Rightarrow> s)"

subsection \<open>Dates\<close>

text \<open>
  A naive \<open>datetime\<close> is the number of microseconds since \<open>datetime.min\<close>
  (0001-01-01 00:00:00): Python orders naive datetimes field by field, which is the
  order of this number, and a \<open>timedelta\<close> is added to it.
\<close>

type_synonym datetime = int

definition datetime_min :: datetime where
  "datetime_min = 0"

definition timedelta :: "int \<Rightarrow> int \<Rightarrow> int" where
  "timedelta days seconds = (days * 86400 + seconds) * 1000000"

definition is_leap :: "int \<Rightarrow> bool" where
  "is_leap y = (y mod 4 = 0 \<and> (y mod 100 \<noteq> 0 \<or> y mod 400 = 0))"

definition days_in_month :: "int \<Rightarrow> int \<Rightarrow> int" where
  "days_in_month y m =
     (if m = 2 then (if is_leap y then 29 else 28)
      else if m = 4 \<or> m = 6 \<or> m = 9 \<or> m = 11 then 30 else 31)"

definition days_before_year :: "int \<Rightarrow> int" where
  "days_before_year year = (let y = year - 1 in y * 365 + y div 4 - y div 100 + y div 400)"

definition days_before_month :: "int \<Rightarrow> int \<Rightarrow> int" where
  "days_before_month y m = sum_list (map (days_in_month y) [1 .. m - 1])"

definition ymd2ord :: "int \<Rightarrow> int \<Rightarrow> int \<Rightarrow> int" where
  "ymd2ord y m d = days_before_year y + days_before_month y m + d"

text \<open>\<open>datetime(y, m, d)\<close> at midnight; the constructor raises \<open>ValueError\<close> outside its ranges.\<close>

definition mk_datetime :: "int \<Rightarrow> int \<Rightarrow> int \<Rightarrow> datetime option" where
  "mk_datetime y m d =
     (if 1 \<le> y \<and> y \<le> 9999 \<and> 1 \<le> m \<and> m \<le> 12 \<and> 1 \<le> d \<and> d \<le> days_in_month y m
      then Some (timedelta (ymd2ord y m d - 1) 0)
      else None)"

text \<open>
  \<open>datetime.strptime(date_str, '%d.%m.%Y')\<close>. The directives are the regular expressions
  \<open>3[0-1]|[1-2]\d|0[1-9]|[1-9]| [1-9]\<close> for the day, \<open>1[0-2]|0[1-9]|[1-9]\<close> for the month and
  \<open>\d\d\d\d\<close> for the year; none of them matches a dot, so the two dots of the format are the
  first two dots of the text, and nothing may follow the year. A character class such as
  \<open>[1-9]\<close> takes ASCII digits only, \<open>\d\<close> takes every decimal digit of Unicode, and \<open>int\<close>
  reads each digit by its decimal value.
\<close>

definition ascii_digit :: "nat \<Rightarrow> int \<Rightarrow> int \<Rightarrow> int option" where
  "ascii_digit c lo hi =
     (if 0x30 + nat lo \<le> c \<and> c \<le> 0x30 + nat hi then Some (int c - 0x30) else None)"

definition directive_d :: "ucd \<Rightarrow> str \<Rightarrow> int option" where
  "directive_d u s =
     (case s of
        [a] \<Rightarrow> ascii_digit a 1 9
      | [a, b] \<Rightarrow>
          if a = 0x33 \<and> ascii_digit b 0 1 \<noteq> None then Some (30 + the (ascii_digit b 0 1))
          else if (a = 0x31 \<or> a = 0x32) \<and> ucd_decimal u b \<noteq> None
            then Some (10 * (int a - 0x30) + the (ucd_decimal u b))
          else if a = 0x30 \<or> a = 0x20 then ascii_digit b 1 9
          else None
      | _ \<Rightarrow> None)"

definition directive_m :: "str \<Rightarrow> int option" where
  "directive_m s =
     (case s of
        [a] \<Rightarrow> ascii_digit a 1 9
      | [a, b] \<Rightarrow>
          if a = 0x31 \<and> ascii_digit b 0 2 \<noteq> None then Some (10 + the (ascii_digit b 0 2))
          else if a = 0x30 then ascii_digit b 1 9
          else None
      | _ \<Rightarrow> None)"

definition directive_Y :: "ucd \<Rightarrow> str \<Rightarrow> int option" where
  "directive_Y u s =
     (case map (ucd_decimal u) s of
        [Some a, Some b, Some c, Some d] \<Rightarrow> Some (1000 * a + 100 * b + 10 * c + d)
      | _ \<Rightarrow> None)"

definition upto_dot :: "str \<Rightarrow> str" where
  "upto_dot s = takeWhile (\<lambda>c. c \<noteq> 0x2E) s"

definition after_dot :: "str \<Rightarrow> str option" where
  "after_dot s = (case dropWhile (\<lambda>c. c \<noteq> 0x2E) s of [] \<Rightarrow> None | c # rest \<Rightarrow> Some rest)"

definition strptime :: "ucd \<Rightarrow> str \<Rightarrow> datetime option" where
  "strptime u s =
     (case after_dot s of
        None \<Rightarrow> None
      | Some s1 \<Rightarrow>
          (case after_dot s1 of
             None \<Rightarrow> None
           | Some s2 \<Rightarrow>
               (case (directive_d u (upto_dot s), directive_m (upto_dot s1), directive_Y u s2) of
                  (Some d, Some m, Some y) \<Rightarrow> mk_datetime y m d
                | _ \<Rightarrow> None)))"

text \<open>\<open>parse_date\<close>, lines 36-41: \<open>None\<close> where \<open>strptime\<close> raises \<open>ValueError\<close>.\<close>

definition parse_date :: "ucd \<Rightarrow> str \<Rightarrow> datetime option" where
  "parse_date u date_str = strptime u date_str"

subsection \<open>Configuration and data\<close>

definition RESULTS_FILE :: str where "RESULTS_FILE = asc ''found_results.json''"
definition SUBJECT_FILE :: str where "SUBJECT_FILE = asc ''subject.txt''"
definition BODY_FILE :: str where "BODY_FILE = asc ''body.txt''"

definition base_url :: str where
  "base_url = asc ''https://www.primaria-iasi.ro''"

definition search_terms :: "(str \<times> str) list" where
  "search_terms =
     [(asc ''Nr. 33'', asc ''964B''),
      (asc ''Tudor Neculai'', asc ''971B''),
      (asc ''Tudor Neculai'', asc ''971A'')]"

text \<open>Exceptions; \<open>IOError\<close> stands for whatever \<open>open\<close> or \<open>write\<close> raises.\<close>

datatype exn = KeyError | TypeError | OverflowError | IOError | RequestException | SystemExit int

text \<open>
  What the HTML parser hands over: a row is the list of its \<open>td\<close> cells, a cell has its
  text and its first anchor, an anchor its text and, when the attribute is there, its
  \<open>href\<close>.
\<close>

record anchor =
  a_text :: str
  a_href :: "str option"

record cell =
  cell_text :: str
  cell_link :: "anchor option"

type_synonym html_row = "cell list"

text \<open>The dictionary appended to \<open>results\<close>.\<close>

record result =
  title :: str
  pdf_url :: str
  date_str :: str
  date :: "datetime option"
  matched_terms :: "str list"

text \<open>
  A value of the JSON library; a dictionary keeps its items in insertion order. A number
  is kept as its literal, the program never looks at one.
\<close>

datatype json =
    JNull
  | JBool bool
  | JNum str
  | JStr str
  | JArr "json list"
  | JObj "(str \<times> json) list"

datatype write_outcome = WriteOk | OpenFails | WriteFailsAfter nat

datatype fetched = FetchFailed | Page "html_row list option"

text \<open>
  The world of one run: the Unicode tables of the interpreter; the two clock readings the
  program takes (line 125, and line 106 already formatted in the Bucharest time zone);
  the wall clock at the moment the filter of line 168 runs, which the program does not
  read; the outcome of the GET with the rows of the table \<open>fisierePMI\<close> (\<open>None\<close> when the page
  has no such table); which files can be read; how writing each file ends
  (\<open>WriteFailsAfter n\<close>: the error comes after \<open>n\<close> characters); and the JSON library
  (\<open>json_load\<close> is \<open>None\<close> where \<open>json.load\<close> raises).
\<close>

record env =
  unicode :: ucd
  env_now :: datetime
  env_timestamp :: str
  env_clock_at_filter :: datetime
  env_fetch :: fetched
  env_readable :: "str \<Rightarrow> bool"
  env_write :: "str \<Rightarrow> write_outcome"
  json_load :: "str \<Rightarrow> json option"
  json_dump :: "json \<Rightarrow> str"

type_synonym files = "str \<rightharpoonup> str"

subsection \<open>Record store\<close>

text \<open>\<open>with open(filename, 'w') as f: f.write(content)\<close>.\<close>

definition py_write :: "env \<Rightarrow> files \<Rightarrow> str \<Rightarrow> str \<Rightarrow> (exn + unit) \<times> files" where
  "py_write e fs filename content =
     (case env_write e filename of
        WriteOk \<Rightarrow> (Inr (), fs(filename \<mapsto> content))
      | OpenFails \<Rightarrow> (Inl IOError, fs)
      | WriteFailsAfter n \<Rightarrow> (Inl IOError, fs(filename \<mapsto> take n content)))"

text \<open>Lines 43-52: every exception ends in the empty dictionary.\<close>

definition load_sent_results :: "env \<Rightarrow> files \<Rightarrow> json" where
  "load_sent_results e fs =
     (case fs RESULTS_FILE of
        None \<Rightarrow> JObj []
      | Some text \<Rightarrow>
          if env_readable e RESULTS_FILE
          then (case json_load e text of Some v \<Rightarrow> v | None \<Rightarrow> JObj [])
          else JObj [])"

text \<open>Lines 54-60: an exception is logged and dropped; what reached the file stays.\<close>

definition save_results :: "env \<Rightarrow> files \<Rightarrow> json \<Rightarrow> files" where
  "save_results e fs sent_results = snd (py_write e fs RESULTS_FILE (json_dump e sent_results))"

text \<open>Lines 114-121: an exception becomes \<open>sys.exit(1)\<close>.\<close>

definition write_file_output :: "env \<Rightarrow> files \<Rightarrow> str \<Rightarrow> str \<Rightarrow> (exn + unit) \<times> files" where
  "write_file_output e fs filename content =
     (case py_write e fs filename content of
        (Inr u, fs') \<Rightarrow> (Inr u, fs')
      | (Inl x, fs') \<Rightarrow> (Inl (SystemExit 1), fs'))"

text \<open>\<open>key in container\<close> and \<open>container[key] = value\<close> on what \<open>json.load\<close> may return.\<close>

definition py_in :: "str \<Rightarrow> json \<Rightarrow> exn + bool" where
  "py_in k v =
     (case v of
        JObj kvs \<Rightarrow> Inr (k \<in> set (map fst kvs))
      | JArr xs \<Rightarrow> Inr (JStr k \<in> set xs)
      | JStr s \<Rightarrow> Inr (str_in k s)
      | _ \<Rightarrow> Inl TypeError)"

fun dict_set :: "str \<Rightarrow> json \<Rightarrow> (str \<times> json) list \<Rightarrow> (str \<times> json) list" where
  "dict_set k v [] = [(k, v)]"
| "dict_set k v ((k', v') # kvs) = (if k' = k then (k, v) # kvs else (k', v') # dict_set k v kvs)"

definition py_setitem :: "json \<Rightarrow> str \<Rightarrow> json \<Rightarrow> exn + json" where
  "py_setitem d k v = (case d of JObj kvs \<Rightarrow> Inr (JObj (dict_set k v kvs)) | _ \<Rightarrow> Inl TypeError)"

subsection \<open>Formatter and state writer\<close>

text \<open>Lines 71-75: the set of all labels, sorted and joined.\<close>

definition all_matched_terms :: "result list \<Rightarrow> str set" where
  "all_matched_terms rs = fold (\<lambda>r s. s \<union> set (matched_terms r)) rs {}"

definition subject_content :: "result list \<Rightarrow> str" where
  "subject_content rs =
     asc ''['' @ join (asc '', '') (sorted_list_of_set (all_matched_terms rs)) @ asc '']''"

text \<open>Lines 79-98.\<close>

definition body_item :: "result \<Rightarrow> str" where
  \<open>body_item r =
     asc ''<div>''
     @ asc ''<p><strong>Title:</strong> '' @ title r @ asc ''</p>''
     @ asc ''<p><strong>PDF URL:</strong> <a href="'' @ pdf_url r @ asc ''">View Auction PDF</a></p>''
     @ asc ''<p><strong>Date:</strong> '' @ date_str r @ asc ''</p>''
     @ asc ''<p><strong>Matched combinations:</strong> '' @ join (asc '', '') (matched_terms r)
     @ asc ''</p>''
     @ asc ''<hr>''
     @ asc ''</div>''\<close>

definition body_content :: "result list \<Rightarrow> str" where
  "body_content rs =
     asc ''<h4>Found '' @ str_nat (length rs) @ asc '' recent new matching auctions:</h4>''
     @ asc ''<hr>''
     @ concat (map body_item rs)"

definition sent_record :: "str \<Rightarrow> result \<Rightarrow> json" where
  "sent_record timestamp r =
     JObj [(asc ''title'', JStr (title r)), (asc ''date'', JStr (date_str r)),
           (asc ''sent_at'', JStr timestamp)]"

text \<open>The loop of lines 108-109.\<close>

fun mark_sent :: "str \<Rightarrow> json \<Rightarrow> result list \<Rightarrow> exn + json" where
  "mark_sent timestamp old_results [] = Inr old_results"
| "mark_sent timestamp old_results (r # rs) =
     (case py_setitem old_results (pdf_url r) (sent_record timestamp r) of
        Inl x \<Rightarrow> Inl x
      | Inr old' \<Rightarrow> mark_sent timestamp old' rs)"

text \<open>Lines 105-110: mark as sent and save.\<close>

definition persist_sent :: "env \<Rightarrow> files \<Rightarrow> result list \<Rightarrow> (exn + unit) \<times> files" where
  "persist_sent e fs recent_new_results =
     (case mark_sent (env_timestamp e) (load_sent_results e fs) recent_new_results of
        Inl x \<Rightarrow> (Inl x, fs)
      | Inr old_results \<Rightarrow> (Inr (), save_results e fs old_results))"

text \<open>Lines 62-112.\<close>

definition format_results_as_html :: "env \<Rightarrow> files \<Rightarrow> result list \<Rightarrow> (exn + bool) \<times> files" where
  "format_results_as_html e fs recent_new_results =
     (if recent_new_results = [] then (Inr False, fs)
      else
        (case write_file_output e fs SUBJECT_FILE (subject_content recent_new_results) of
           (Inl x, fs1) \<Rightarrow> (Inl x, fs1)
         | (Inr u, fs1) \<Rightarrow>
             (case write_file_output e fs1 BODY_FILE (body_content recent_new_results) of
                (Inl x, fs2) \<Rightarrow> (Inl x, fs2)
              | (Inr u, fs2) \<Rightarrow>
                  (case persist_sent e fs2 recent_new_results of
                     (Inl x, fs3) \<Rightarrow> (Inl x, fs3)
                   | (Inr u, fs3) \<Rightarrow> (Inr True, fs3)))))"

subsection \<open>Extractor and matcher\<close>

text \<open>The f-string of line 155; 0x27 is the single quote.\<close>

definition combo_label :: "str \<Rightarrow> str \<Rightarrow> str" where
  "combo_label term1 term2 =
     asc ''('' @ [0x27] @ term1 @ [0x27] @ asc '', '' @ [0x27] @ term2 @ [0x27] @ asc '')''"

text \<open>The loop of lines 148-155.\<close>

fun matching_combos :: "ucd \<Rightarrow> str \<Rightarrow> (str \<times> str) list \<Rightarrow> str list" where
  "matching_combos u title_lower [] = []"
| "matching_combos u title_lower ((term1, term2) # rest) =
     (if str_in (lower u term1) title_lower \<and> str_in (lower u term2) title_lower
      then combo_label term1 term2 # matching_combos u title_lower rest
      else matching_combos u title_lower rest)"

text \<open>Lines 140-144: \<open>link['href']\<close> raises \<open>KeyError\<close> on an anchor without the attribute.\<close>

definition row_title :: "html_row \<Rightarrow> str" where
  "row_title columns =
     (case cell_link (columns ! 0) of
        Some link \<Rightarrow> strip (a_text link)
      | None \<Rightarrow> strip (cell_text (columns ! 0)))"

definition row_pdf_url :: "html_row \<Rightarrow> exn + str option" where
  "row_pdf_url columns =
     (case cell_link (columns ! 0) of
        Some link \<Rightarrow> (case a_href link of Some h \<Rightarrow> Inr (Some h) | None \<Rightarrow> Inl KeyError)
      | None \<Rightarrow> Inr None)"

definition row_date_str :: "html_row \<Rightarrow> str" where
  "row_date_str columns = strip (cell_text (columns ! 1))"

text \<open>Lines 145-160, once title, link and date text are known.\<close>

definition match_row :: "ucd \<Rightarrow> (str \<times> str) list \<Rightarrow> str \<Rightarrow> str option \<Rightarrow> str \<Rightarrow> result option" where
  "match_row u terms ttl url dstr =
     (let matching = matching_combos u (lower u ttl) terms in
      if matching \<noteq> []
      then Some \<lparr> title = ttl, pdf_url = base_url @ fmt_opt url, date_str = dstr,
                  date = parse_date u dstr, matched_terms = matching \<rparr>
      else None)"

text \<open>The body of the loop over the rows, lines 138-160.\<close>

definition scan_row :: "ucd \<Rightarrow> (str \<times> str) list \<Rightarrow> html_row \<Rightarrow> exn + result option" where
  "scan_row u terms columns =
     (if 2 \<le> length columns
      then (case row_pdf_url columns of
              Inl x \<Rightarrow> Inl x
            | Inr url \<Rightarrow> Inr (match_row u terms (row_title columns) url (row_date_str columns)))
      else Inr None)"

fun scan_rows :: "ucd \<Rightarrow> (str \<times> str) list \<Rightarrow> html_row list \<Rightarrow> exn + result list" where
  "scan_rows u terms [] = Inr []"
| "scan_rows u terms (row # rows) =
     (case scan_row u terms row of
        Inl x \<Rightarrow> Inl x
      | Inr found \<Rightarrow>
          (case scan_rows u terms rows of
             Inl x \<Rightarrow> Inl x
           | Inr results \<Rightarrow> Inr (case found of None \<Rightarrow> results | Some r \<Rightarrow> r # results)))"

subsection \<open>Sort, dedup and recency filter\<close>

text \<open>
  Line 162. \<open>list.sort\<close> is stable, and with \<open>reverse=True\<close> rows with equal keys keep
  their order: the list is reversed, sorted and reversed again.
\<close>

definition sort_key_of :: "result \<Rightarrow> datetime" where
  "sort_key_of x = (case date x of Some d \<Rightarrow> d | None \<Rightarrow> datetime_min)"

definition sort_results :: "result list \<Rightarrow> result list" where
  "sort_results results = rev (sort_key sort_key_of (rev results))"

text \<open>Line 165: the comprehension raises where the membership test does.\<close>

fun new_results :: "json \<Rightarrow> result list \<Rightarrow> exn + result list" where
  "new_results old_results [] = Inr []"
| "new_results old_results (r # rs) =
     (case py_in (pdf_url r) old_results of
        Inl x \<Rightarrow> Inl x
      | Inr known \<Rightarrow>
          (case new_results old_results rs of
             Inl x \<Rightarrow> Inl x
           | Inr keep \<Rightarrow> Inr (if known then keep else r # keep)))"

text \<open>Line 168.\<close>

definition is_recent :: "datetime \<Rightarrow> result \<Rightarrow> bool" where
  "is_recent two_weeks_ago r = (case date r of None \<Rightarrow> False | Some d \<Rightarrow> two_weeks_ago \<le> d)"

definition recent_new_results :: "datetime \<Rightarrow> result list \<Rightarrow> result list" where
  "recent_new_results two_weeks_ago new = filter (is_recent two_weeks_ago) new"

text \<open>Lines 162-168 together.\<close>

definition select_results :: "json \<Rightarrow> datetime \<Rightarrow> result list \<Rightarrow> exn + result list" where
  "select_results old_results two_weeks_ago results =
     (case new_results old_results (sort_results results) of
        Inl x \<Rightarrow> Inl x
      | Inr new \<Rightarrow> Inr (recent_new_results two_weeks_ago new))"

subsection \<open>The run\<close>

text \<open>
  \<open>sys.exit\<close> raises \<open>SystemExit\<close>, which no \<open>except Exception\<close> catches; any other
  exception inside the \<open>try\<close> of \<open>scrape_parking_auctions\<close> becomes \<open>sys.exit(1)\<close>
  (lines 176-181). Line 125 is outside the \<open>try\<close>: \<open>datetime\<close> raises \<open>OverflowError\<close> when
  the difference would lie before \<open>datetime.min\<close>. An interrupt from the keyboard is not
  modelled.
\<close>

definition handled :: "exn \<Rightarrow> exn" where
  "handled x = (case x of SystemExit c \<Rightarrow> SystemExit c | _ \<Rightarrow> SystemExit 1)"

definition two_weeks_ago_of :: "datetime \<Rightarrow> exn + datetime" where
  "two_weeks_ago_of now =
     (if datetime_min \<le> now - timedelta 14 0 then Inr (now - timedelta 14 0) else Inl OverflowError)"

text \<open>
  Lines 123-181. The threshold of the recency filter is computed from the clock reading
  of line 125, before the page is fetched.
\<close>

definition scrape_parking_auctions :: "env \<Rightarrow> files \<Rightarrow> (str \<times> str) list \<Rightarrow> (exn + unit) \<times> files" where
  "scrape_parking_auctions e fs terms =
     (let old_results = load_sent_results e fs in
      case two_weeks_ago_of (env_now e) of
        Inl x \<Rightarrow> (Inl x, fs)
      | Inr two_weeks_ago \<Rightarrow>
          (case env_fetch e of
             FetchFailed \<Rightarrow> (Inl (SystemExit 1), fs)
           | Page None \<Rightarrow> (Inr (), fs)
           | Page (Some rows) \<Rightarrow>
               (case scan_rows (unicode e) terms rows of
                  Inl x \<Rightarrow> (Inl (handled x), fs)
                | Inr results \<Rightarrow>
                    (case select_results old_results two_weeks_ago results of
                       Inl x \<Rightarrow> (Inl (handled x), fs)
                     | Inr recent \<Rightarrow>
                         if recent \<noteq> []
                         then (case format_results_as_html e fs recent of
                                 (Inl x, fs') \<Rightarrow> (Inl (handled x), fs')
                               | (Inr b, fs') \<Rightarrow> (Inr (), fs'))
                         else (Inr (), fs)))))"

text \<open>
  Lines 184-203, \<open>sys.exit(main())\<close>: the exit status of the process and the files it
  leaves.
\<close>

definition main :: "env \<Rightarrow> files \<Rightarrow> int \<times> files" where
  "main e fs =
     (case scrape_parking_auctions e fs search_terms of
        (Inr u, fs') \<Rightarrow> (0, fs')
      | (Inl (SystemExit c), fs') \<Rightarrow> (c, fs')
      | (Inl x, fs') \<Rightarrow> (1, fs'))"

subsection \<open>The words of the specification\<close>

text \<open>
  A term occurs in a title as a case-insensitive substring when some stretch of the
  title has the term's length and agrees with it character by character up to case, that
  is, up to the lower-case mapping of each character.
\<close>

definition ci_substring :: "ucd \<Rightarrow> str \<Rightarrow> str \<Rightarrow> bool" where
  "ci_substring u t ttl =
     (\<exists>pre w suf. ttl = pre @ w @ suf \<and> length w = length t
        \<and> (\<forall>i < length t. ucd_lower u (w ! i) = ucd_lower u (t ! i)))"

text \<open>The lowered term occurs in the lowered title.\<close>

definition lowered_in :: "ucd \<Rightarrow> str \<Rightarrow> str \<Rightarrow> bool" where
  "lowered_in u t ttl = (\<exists>pre suf. lower u ttl = pre @ lower u t @ suf)"

text \<open>A combination has both its lowered terms in the lowered title.\<close>

definition both_present :: "ucd \<Rightarrow> str \<Rightarrow> str \<times> str \<Rightarrow> bool" where
  "both_present u ttl c = (lowered_in u (fst c) ttl \<and> lowered_in u (snd c) ttl)"

text \<open>
  \<open>str.lower\<close> works character by character on a string that has no capital sigma and
  whose characters each have a lower-case mapping of one code point.
\<close>

definition charwise :: "ucd \<Rightarrow> str \<Rightarrow> bool" where
  "charwise u s = (\<forall>c \<in> set s. c \<noteq> 0x3A3 \<and> length (ucd_lower u c) = 1)"

text \<open>The dictionary after the loop of lines 108-109 has run over the rows.\<close>

definition marked :: "str \<Rightarrow> result list \<Rightarrow> (str \<times> json) list \<Rightarrow> (str \<times> json) list" where
  "marked timestamp rs kvs = fold (\<lambda>r. dict_set (pdf_url r) (sent_record timestamp r)) rs kvs"

subsection \<open>A sample page and run\<close>

text \<open>
  The Unicode tables on ASCII, Latin-1, the Romanian letters, the dotted capital I, the
  Greek letters, the combining dot above and the Arabic-Indic and full-width digits; the
  samples below use no other character.
\<close>

definition sample_ucd :: ucd where
  "sample_ucd = \<lparr>
     ucd_lower = (\<lambda>c.
        if (0x41 \<le> c \<and> c \<le> 0x5A) \<or> (0xC0 \<le> c \<and> c \<le> 0xDE \<and> c \<noteq> 0xD7)
           \<or> (0x391 \<le> c \<and> c \<le> 0x3A9 \<and> c \<noteq> 0x3A2) then [c + 32]
        else if c = 0x102 \<or> c = 0x218 \<or> c = 0x21A then [c + 1]
        else if c = 0x130 then [0x69, 0x307]
        else [c]),
     ucd_cased = (\<lambda>c.
        (0x41 \<le> c \<and> c \<le> 0x5A) \<or> (0x61 \<le> c \<and> c \<le> 0x7A)
        \<or> c = 0xAA \<or> c = 0xB5 \<or> c = 0xBA
        \<or> (0xC0 \<le> c \<and> c \<le> 0xFF \<and> c \<noteq> 0xD7 \<and> c \<noteq> 0xF7)
        \<or> c = 0x102 \<or> c = 0x103 \<or> c = 0x130
        \<or> c = 0x218 \<or> c = 0x219 \<or> c = 0x21A \<or> c = 0x21B
        \<or> (0x391 \<le> c \<and> c \<le> 0x3A9 \<and> c \<noteq> 0x3A2) \<or> (0x3B1 \<le> c \<and> c \<le> 0x3C9)),
     ucd_case_ignorable = (\<lambda>c.
        c \<in> set [0x27, 0x2E, 0x3A, 0x5E, 0x60, 0xA8, 0xAD, 0xAF, 0xB4, 0xB7, 0xB8, 0x307]),
     ucd_decimal = (\<lambda>c.
        if 0x30 \<le> c \<and> c \<le> 0x39 then Some (int c - 0x30)
        else if 0x660 \<le> c \<and> c \<le> 0x669 then Some (int c - 0x660)
        else if 0xFF10 \<le> c \<and> c \<le> 0xFF19 then Some (int c - 0xFF10)
        else None) \<rparr>"

text \<open>
  Two rows of the table: the first links a notice whose title has both terms of the second
  configured combination, and its date cell ends in a no-break space; the second has only
  one term of the first combination. Then the entry of \<open>results\<close> for the first row.
\<close>

definition row_A :: html_row where
  "row_A = [\<lparr>cell_text = asc ''Licitatie parcare Tudor Neculai 971B'',
             cell_link = Some \<lparr>a_text = asc '' Licitatie parcare TUDOR Neculai 971b '',
                                a_href = Some (asc ''/dm_iasi/a.pdf'')\<rparr>\<rparr>,
            \<lparr>cell_text = asc '' 15.01.2026'' @ [0xA0], cell_link = None\<rparr>]"

definition row_B :: html_row where
  "row_B = [\<lparr>cell_text = asc ''Licitatie Nr. 33 teren parcare'', cell_link = None\<rparr>,
            \<lparr>cell_text = asc ''01.01.2026'', cell_link = None\<rparr>]"

definition result_A :: result where
  "result_A = \<lparr>title = asc ''Licitatie parcare TUDOR Neculai 971b'',
        pdf_url = asc ''https://www.primaria-iasi.ro/dm_iasi/a.pdf'',
        date_str = asc ''15.01.2026'', date = Some 63904032000000000,
        matched_terms = [asc ''('Tudor Neculai', '971B')'']\<rparr>"






text \<open>Entries of \<open>results\<close> with other dates.\<close>

definition result_33 :: result where
  "result_33 = \<lparr>title = asc ''Licitatie Nr. 33 parcare 964B'',
        pdf_url = asc ''https://www.primaria-iasi.ro/dm_iasi/b.pdf'',
        date_str = asc ''01.01.2026'', date = Some 63902822400000000,
        matched_terms = [asc ''('Nr. 33', '964B')'']\<rparr>"

definition result_bad :: result where
  "result_bad = \<lparr>title = asc ''Anunt Tudor Neculai 971A'',
        pdf_url = asc ''https://www.primaria-iasi.ro/dm_iasi/c.pdf'',
        date_str = asc ''ianuarie 2026'', date = None,
        matched_terms = [asc ''('Tudor Neculai', '971A')'']\<rparr>"

text \<open>The clock at line 125: 29.01.2026 00:00:00, fourteen days after 15.01.2026.\<close>

definition sample_now :: datetime where
  "sample_now = 63905241600000000"

text \<open>
  The record store after the first row has been sent, its text, and the JSON library on
  the texts of this run: the store above and the empty dictionary.
\<close>

definition sample_record :: json where
  "sample_record = JObj [(asc ''title'', JStr (asc ''Licitatie parcare TUDOR Neculai 971b'')),
                         (asc ''date'', JStr (asc ''15.01.2026'')),
                         (asc ''sent_at'', JStr (asc ''29.01.2026 02:00:00''))]"

definition sample_store :: json where
  "sample_store = JObj [(asc ''https://www.primaria-iasi.ro/dm_iasi/a.pdf'', sample_record)]"

definition sample_store_text :: str where
  \<open>sample_store_text =
     asc ''{"https://www.primaria-iasi.ro/dm_iasi/a.pdf": ''
     @ asc ''{"title": "Licitatie parcare TUDOR Neculai 971b", "date": "15.01.2026", ''
     @ asc ''"sent_at": "29.01.2026 02:00:00"}}''\<close>

definition sample_dump :: "json \<Rightarrow> str" where
  "sample_dump v = (if v = sample_store then sample_store_text else asc ''{}'')"

definition sample_load :: "str \<Rightarrow> json option" where
  "sample_load text =
     (if text = sample_store_text then Some sample_store
      else if text = asc ''{}'' then Some (JObj [])
      else None)"

text \<open>A run in which the page arrives at once and every file operation succeeds.\<close>

definition sample_env :: env where
  "sample_env = \<lparr>unicode = sample_ucd, env_now = sample_now,
       env_timestamp = asc ''29.01.2026 02:00:00'', env_clock_at_filter = sample_now,
       env_fetch = Page (Some [row_A, row_B]),
       env_readable = (\<lambda>f. True), env_write = (\<lambda>f. WriteOk),
       json_load = sample_load, json_dump = sample_dump\<rparr>"

text \<open>The same run, except that the page takes one second to arrive.\<close>

definition slow_env :: env where
  "slow_env = sample_env\<lparr>env_clock_at_filter := sample_now + timedelta 0 1\<rparr>"

text \<open>The sample run, except that writing the body file fails after nine characters.\<close>

definition body_fails_env :: env where
  "body_fails_env = sample_env\<lparr>env_write := (\<lambda>f. if f = BODY_FILE then WriteFailsAfter 9 else WriteOk)\<rparr>"

section \<open>Properties\<close>

subsection \<open>Evaluating the samples\<close>

lemmas date_defs = parse_date_def strptime_def after_dot_def upto_dot_def directive_d_def directive_m_def
  directive_Y_def ascii_digit_def mk_datetime_def days_in_month_def is_leap_def ymd2ord_def
  days_before_year_def days_before_month_def timedelta_def upto.simps

lemmas scan_defs = scan_row_def row_pdf_url_def row_title_def row_date_str_def match_row_def
  strip_def is_space_def lower_def final_sigma_def combo_label_def base_url_def fmt_opt_def
  asc_def sample_ucd_def

lemma scan_sample: "scan_rows sample_ucd search_terms [row_A, row_B] = Inr [result_A]"
  by (simp add: search_terms_def row_A_def row_B_def result_A_def scan_defs date_defs)

subsection \<open>Substring test\<close>

lemma startswith_iff: "startswith s n \<longleftrightarrow> (\<exists>suf. s = n @ suf)"
  by (induction s n rule: startswith.induct) auto

lemma str_in_iff: "str_in n h \<longleftrightarrow> (\<exists>pre suf. h = pre @ n @ suf)"
proof (induction h)
  case Nil
  then show ?case by auto
next
  case (Cons c cs)
  show ?case
  proof
    assume "str_in n (c # cs)"
    then consider "startswith (c # cs) n" | "str_in n cs" by auto
    then show "\<exists>pre suf. c # cs = pre @ n @ suf"
    proof cases
      case 1
      then obtain suf where "c # cs = n @ suf" by (auto simp: startswith_iff)
      then have "c # cs = [] @ n @ suf" by simp
      then show ?thesis by blast
    next
      case 2
      then obtain pre suf where "cs = pre @ n @ suf" using Cons.IH by auto
      then have "c # cs = (c # pre) @ n @ suf" by simp
      then show ?thesis by blast
    qed
  next
    assume "\<exists>pre suf. c # cs = pre @ n @ suf"
    then obtain pre suf where eq: "c # cs = pre @ n @ suf" by blast
    show "str_in n (c # cs)"
    proof (cases pre)
      case Nil
      then have "startswith (c # cs) n" using eq by (auto simp: startswith_iff)
      then show ?thesis by simp
    next
      case (Cons p ps)
      then have "cs = ps @ n @ suf" using eq by simp
      then have "str_in n cs" using Cons.IH by blast
      then show ?thesis by simp
    qed
  qed
qed

lemma str_in_lower_iff: "str_in (lower u t) (lower u ttl) \<longleftrightarrow> lowered_in u t ttl"
  by (simp add: str_in_iff lowered_in_def)


subsection \<open>Lowering character by character\<close>

lemma do_lower_charwise:
  "charwise u s \<Longrightarrow> do_lower u seen s = map (\<lambda>c. hd (ucd_lower u c)) s"
proof (induction s arbitrary: seen)
  case Nil
  then show ?case by simp
next
  case (Cons c cs)
  from Cons.prems have c: "c \<noteq> 0x3A3" "length (ucd_lower u c) = 1" and cs: "charwise u cs"
    by (simp_all add: charwise_def)
  from c(2) have "ucd_lower u c = [hd (ucd_lower u c)]"
    by (cases "ucd_lower u c") simp_all
  then show ?case
    using c(1) Cons.IH [OF cs] by simp
qed

lemma lower_charwise: "charwise u s \<Longrightarrow> lower u s = map (\<lambda>c. hd (ucd_lower u c)) s"
  by (simp add: lower_def do_lower_charwise)

lemma charwise_same:
  assumes "charwise u s" "charwise u t" "a \<in> set s" "b \<in> set t"
  shows "hd (ucd_lower u a) = hd (ucd_lower u b) \<longleftrightarrow> ucd_lower u a = ucd_lower u b"
proof -
  have "length (ucd_lower u a) = 1" "length (ucd_lower u b) = 1"
    using assms by (simp_all add: charwise_def)
  then show ?thesis
    by (cases "ucd_lower u a"; cases "ucd_lower u b") auto
qed

lemma map_eq_nth_iff:
  "length w = length t \<Longrightarrow> (map f w = map f t) \<longleftrightarrow> (\<forall>i < length t. f (w ! i) = f (t ! i))"
  by (auto simp: list_eq_iff_nth_eq)

lemma lowered_in_charwise:
  assumes t: "charwise u t" and s: "charwise u ttl"
  shows "lowered_in u t ttl \<longleftrightarrow> ci_substring u t ttl"
proof
  let ?f = "\<lambda>c. hd (ucd_lower u c)"
  assume "lowered_in u t ttl"
  then obtain pre suf where eq: "map ?f ttl = pre @ map ?f t @ suf"
    using t s by (auto simp: lowered_in_def lower_charwise)
  define a where "a = take (length pre) ttl"
  define w where "w = take (length t) (drop (length pre) ttl)"
  define b where "b = drop (length pre + length t) ttl"
  have len: "length ttl = length pre + length t + length suf"
    using arg_cong [OF eq, of length] by simp
  have split: "ttl = a @ w @ b"
    unfolding a_def w_def b_def
    by (metis append_take_drop_id drop_drop add.commute)
  have lw: "length w = length t" using len by (simp add: w_def)
  have la: "length a = length pre" using len by (simp add: a_def)
  have "map ?f a @ map ?f w @ map ?f b = pre @ map ?f t @ suf"
    using eq split by simp
  then have "map ?f w = map ?f t"
    using la lw by simp
  then have hd_same: "\<forall>i < length t. ?f (w ! i) = ?f (t ! i)"
    using lw by (simp add: map_eq_nth_iff)
  have "ucd_lower u (w ! i) = ucd_lower u (t ! i)" if "i < length t" for i
  proof -
    have "w ! i \<in> set ttl" using that lw split by simp
    moreover have "t ! i \<in> set t" using that by simp
    ultimately show ?thesis
      using charwise_same [OF s t] hd_same that by blast
  qed
  then show "ci_substring u t ttl"
    unfolding ci_substring_def using split lw by blast
next
  let ?f = "\<lambda>c. hd (ucd_lower u c)"
  assume "ci_substring u t ttl"
  then obtain pre w suf where split: "ttl = pre @ w @ suf" and lw: "length w = length t"
    and same: "\<forall>i < length t. ucd_lower u (w ! i) = ucd_lower u (t ! i)"
    unfolding ci_substring_def by blast
  have "map ?f w = map ?f t"
    using lw same by (simp add: map_eq_nth_iff)
  then have "map ?f ttl = map ?f pre @ map ?f t @ map ?f suf"
    using split by simp
  then show "lowered_in u t ttl"
    using t s unfolding lowered_in_def lower_charwise [OF t] lower_charwise [OF s] by blast
qed

subsection \<open>Matcher\<close>

lemma matching_combos_filter:
  "matching_combos u (lower u ttl) terms =
     map (\<lambda>c. combo_label (fst c) (snd c)) (filter (both_present u ttl) terms)"
  by (induction terms) (auto simp: both_present_def str_in_lower_iff)



lemma match_row_fields:
  assumes "match_row u terms ttl url dstr = Some r"
  shows "title r = ttl" and "pdf_url r = base_url @ fmt_opt url" and "date_str r = dstr"
    and "date r = parse_date u dstr" and "matched_terms r = matching_combos u (lower u ttl) terms"
    and "matched_terms r \<noteq> []"
  using assms by (auto simp: match_row_def Let_def split: if_splits)

lemma scan_rows_set:
  assumes "scan_rows u terms rows = Inr results"
  shows "set results = {r. \<exists>row \<in> set rows. scan_row u terms row = Inr (Some r)}"
    and "\<forall>row \<in> set rows. \<exists>found. scan_row u terms row = Inr found"
  using assms
  by (induction rows arbitrary: results) (auto split: sum.splits option.splits)

lemma scan_row_Some:
  "scan_row u terms row = Inr (Some r) \<longleftrightarrow>
     2 \<le> length row \<and> (\<exists>url. row_pdf_url row = Inr url
        \<and> match_row u terms (row_title row) url (row_date_str row) = Some r)"
  by (auto simp: scan_row_def split: sum.splits)







lemma label_in_matching:
  "(t1, t2) \<in> set terms \<Longrightarrow> lowered_in u t1 ttl \<Longrightarrow> lowered_in u t2 ttl
     \<Longrightarrow> combo_label t1 t2 \<in> set (matching_combos u (lower u ttl) terms)"
  by (force simp: matching_combos_filter both_present_def)

lemma match_row_label:
  assumes "(t1, t2) \<in> set terms" "lowered_in u t1 ttl" "lowered_in u t2 ttl"
  shows "\<exists>r. match_row u terms ttl url dstr = Some r \<and> combo_label t1 t2 \<in> set (matched_terms r)"
proof -
  have "combo_label t1 t2 \<in> set (matching_combos u (lower u ttl) terms)"
    using assms by (rule label_in_matching)
  then show ?thesis
    by (auto simp: match_row_def Let_def)
qed



subsection \<open>Labels and subject\<close>

lemma all_matched_terms_fold:
  "fold (\<lambda>r s. s \<union> set (matched_terms r)) rs S = S \<union> set (concat (map matched_terms rs))"
  by (induction rs arbitrary: S) auto

lemma all_matched_terms_set: "all_matched_terms rs = set (concat (map matched_terms rs))"
  by (simp add: all_matched_terms_def all_matched_terms_fold)

lemma subject_content_sort:
  "subject_content rs
     = asc ''['' @ join (asc '', '') (sort (remdups (concat (map matched_terms rs)))) @ asc '']''"
  by (simp only: subject_content_def all_matched_terms_set sorted_list_of_set_sort_remdups)

text \<open>
  Claim C3, as the code has it. A row matched by the combination (term1, term2) carries
  the label \<open>('term1', 'term2')\<close>, each term between single quotes. The subject is the
  sorted, duplicate-free list of the labels of all rows, joined by a comma and a space
  between square brackets; for one row whose only label is that of
  \<open>('Nr. 33', '964B')\<close> it is \<open>[('Nr. 33', '964B')]\<close>.
\<close>

theorem label_and_subject:
  "((t1, t2) \<in> set terms \<and> lowered_in u t1 ttl \<and> lowered_in u t2 ttl \<longrightarrow>
      (\<exists>r. match_row u terms ttl url dstr = Some r \<and> combo_label t1 t2 \<in> set (matched_terms r)))
   \<and> ((t1, t2) \<in> set terms \<and> charwise u t1 \<and> charwise u t2 \<and> charwise u ttl
        \<and> ci_substring u t1 ttl \<and> ci_substring u t2 ttl \<longrightarrow>
      (\<exists>r. match_row u terms ttl url dstr = Some r \<and> combo_label t1 t2 \<in> set (matched_terms r)))
   \<and> combo_label (asc ''Nr. 33'') (asc ''964B'') = asc ''('Nr. 33', '964B')''
   \<and> (\<exists>labels. subject_content rs = asc ''['' @ join (asc '', '') labels @ asc '']''
         \<and> sorted labels \<and> distinct labels
         \<and> set labels = (\<Union>r \<in> set rs. set (matched_terms r)))
   \<and> (matched_terms r1 = [combo_label (asc ''Nr. 33'') (asc ''964B'')] \<longrightarrow>
         subject_content [r1] = asc ''[('Nr. 33', '964B')]'')"
proof (intro conjI impI)
  assume "(t1, t2) \<in> set terms \<and> lowered_in u t1 ttl \<and> lowered_in u t2 ttl"
  then show "\<exists>r. match_row u terms ttl url dstr = Some r \<and> combo_label t1 t2 \<in> set (matched_terms r)"
    using match_row_label by blast
next
  assume "(t1, t2) \<in> set terms \<and> charwise u t1 \<and> charwise u t2 \<and> charwise u ttl
        \<and> ci_substring u t1 ttl \<and> ci_substring u t2 ttl"
  then show "\<exists>r. match_row u terms ttl url dstr = Some r \<and> combo_label t1 t2 \<in> set (matched_terms r)"
    using match_row_label lowered_in_charwise by blast
next
  show "combo_label (asc ''Nr. 33'') (asc ''964B'') = asc ''('Nr. 33', '964B')''"
    by (simp add: combo_label_def asc_def)
next
  let ?ls = "sort (remdups (concat (map matched_terms rs)))"
  have "subject_content rs = asc ''['' @ join (asc '', '') ?ls @ asc '']''"
    by (rule subject_content_sort)
  moreover have "sorted ?ls" by simp
  moreover have "distinct ?ls" by simp
  moreover have "set ?ls = (\<Union>r \<in> set rs. set (matched_terms r))" by simp
  ultimately show "\<exists>labels. subject_content rs = asc ''['' @ join (asc '', '') labels @ asc '']''
         \<and> sorted labels \<and> distinct labels
         \<and> set labels = (\<Union>r \<in> set rs. set (matched_terms r))"
    by blast
next
  assume "matched_terms r1 = [combo_label (asc ''Nr. 33'') (asc ''964B'')]"
  then show "subject_content [r1] = asc ''[('Nr. 33', '964B')]''"
    by (simp add: subject_content_sort combo_label_def asc_def)
qed

theorem label_and_subject_witness:
  "(asc ''Nr. 33'', asc ''964B'') \<in> set search_terms
   \<and> lowered_in sample_ucd (asc ''Nr. 33'') (title result_33)
   \<and> lowered_in sample_ucd (asc ''964B'') (title result_33)
   \<and> match_row sample_ucd search_terms (title result_33) (Some (asc ''/dm_iasi/b.pdf'')) (asc ''01.01.2026'')
       = Some result_33
   \<and> matched_terms result_33 = [combo_label (asc ''Nr. 33'') (asc ''964B'')]
   \<and> subject_content [result_33] = asc ''[('Nr. 33', '964B')]''"
proof -
  have ci: "lowered_in sample_ucd (asc ''Nr. 33'') (title result_33)"
    "lowered_in sample_ucd (asc ''964B'') (title result_33)"
    unfolding str_in_lower_iff [symmetric] by (simp_all add: result_33_def scan_defs)
  have mem: "(asc ''Nr. 33'', asc ''964B'') \<in> set search_terms"
    by (simp add: search_terms_def)
  have mr: "match_row sample_ucd search_terms (title result_33) (Some (asc ''/dm_iasi/b.pdf'')) (asc ''01.01.2026'')
       = Some result_33"
    by (simp add: result_33_def search_terms_def scan_defs date_defs)
  have mt: "matched_terms result_33 = [combo_label (asc ''Nr. 33'') (asc ''964B'')]"
    by (simp add: result_33_def combo_label_def asc_def)
  show ?thesis
    using ci mem mr mt
      label_and_subject [where ?t1.0 = "asc ''Nr. 33''" and ?t2.0 = "asc ''964B''" and terms = search_terms
        and u = sample_ucd and ttl = "title result_33" and url = "Some (asc ''/dm_iasi/b.pdf'')"
        and dstr = "asc ''01.01.2026''" and rs = "[result_33]" and ?r1.0 = result_33]
    by simp
qed

text \<open>
  Claim C3 as written fails: the label of the pair is neither \<open>(Nr. 33, 964B)\<close> nor
  \<open>("Nr. 33", "964B")\<close>, and the subject of the single row is not
  \<open>[("Nr. 33", "964B")]\<close>.
\<close>

theorem subject_double_quotes_counterexample:
  \<open>match_row sample_ucd search_terms (asc ''Licitatie Nr. 33 parcare 964B'') (Some (asc ''/dm_iasi/b.pdf''))
       (asc ''01.01.2026'') = Some result_33
   \<and> matched_terms result_33 \<noteq> [asc ''(Nr. 33, 964B)'']
   \<and> matched_terms result_33 \<noteq> [asc ''("Nr. 33", "964B")'']
   \<and> subject_content [result_33] \<noteq> asc ''[("Nr. 33", "964B")]''\<close>
  by (simp add: result_33_def search_terms_def scan_defs date_defs subject_content_sort)

subsection \<open>Link of a row without anchor\<close>

text \<open>
  Claim C4 at a row whose first cell has no anchor: the link of the entry is not absent,
  it is the base URL followed by the text \<open>None\<close>.
\<close>

theorem no_anchor_url_is_base_None:
  "scan_row sample_ucd search_terms
     [\<lparr>cell_text = asc ''Licitatie Nr. 33 parcare 964B'', cell_link = None\<rparr>,
      \<lparr>cell_text = asc ''01.01.2026'', cell_link = None\<rparr>]
   = Inr (Some \<lparr>title = asc ''Licitatie Nr. 33 parcare 964B'',
        pdf_url = asc ''https://www.primaria-iasi.roNone'',
        date_str = asc ''01.01.2026'', date = Some 63902822400000000,
        matched_terms = [asc ''('Nr. 33', '964B')'']\<rparr>)"
  by (simp add: search_terms_def scan_defs date_defs)

subsection \<open>Sorting\<close>

lemma sample_dates:
  "date result_33 = parse_date sample_ucd (asc ''01.01.2026'')"
  "date result_A = parse_date sample_ucd (asc ''15.01.2026'')"
  "date result_bad = parse_date sample_ucd (asc ''ianuarie 2026'')"
  by (simp_all add: result_33_def result_A_def result_bad_def date_defs asc_def sample_ucd_def)

lemma sort_results_keys:
  "rev (map sort_key_of (sort_results rs)) = map sort_key_of (sort_key sort_key_of (rev rs))"
  by (simp add: sort_results_def rev_map)

lemma sort_results_sorted: "sorted (rev (map sort_key_of (sort_results rs)))"
  by (simp only: sort_results_keys sorted_sort_key)

lemma sort_results_mset: "mset (sort_results rs) = mset rs"
  by (simp add: sort_results_def)

lemma sort_results_set: "set (sort_results rs) = set rs"
  by (simp add: sort_results_def)

lemma sort_results_stable:
  "filter (\<lambda>r. sort_key_of r = k) (sort_results rs) = filter (\<lambda>r. sort_key_of r = k) rs"
proof -
  have "filter (\<lambda>r. sort_key_of r = k) (sort_results rs)
        = rev (filter (\<lambda>r. sort_key_of r = k) (sort_key sort_key_of (rev rs)))"
    by (simp add: sort_results_def rev_filter)
  also have "\<dots> = rev (filter (\<lambda>r. sort_key_of r = k) (rev rs))"
    by (simp only: sort_key_stable)
  also have "\<dots> = filter (\<lambda>r. sort_key_of r = k) rs"
    by (simp add: rev_filter)
  finally show ?thesis .
qed

lemma sort_results_nth:
  assumes "i < j" "j < length rs"
  shows "sort_key_of (sort_results rs ! j) \<le> sort_key_of (sort_results rs ! i)"
proof -
  have len: "length (sort_results rs) = length rs"
    by (simp add: sort_results_def)
  have "sorted (rev (map sort_key_of (sort_results rs)))"
    by (rule sort_results_sorted)
  then have "map sort_key_of (sort_results rs) ! j \<le> map sort_key_of (sort_results rs) ! i"
    using assms len sorted_rev_nth_mono [of "map sort_key_of (sort_results rs)" i j] by simp
  then show ?thesis
    using assms len by simp
qed

text \<open>
  Claim C5. Line 162 gives a permutation of the matched rows in descending order of the
  sort key, which is the parsed date, or \<open>datetime.min\<close> for a row whose date did not
  parse; after such a row come only rows whose key is the minimal one; rows with equal keys
  keep their order. Rows dated 01.01.2026, 15.01.2026 and with an unparseable date come out
  as 15.01.2026, 01.01.2026, unparseable.
\<close>

theorem sort_results_descending:
  "mset (sort_results rs) = mset rs
   \<and> sorted (rev (map sort_key_of (sort_results rs)))
   \<and> (\<forall>i j. i < j \<and> j < length rs \<longrightarrow>
         sort_key_of (sort_results rs ! j) \<le> sort_key_of (sort_results rs ! i))
   \<and> (\<forall>i j. i < j \<and> j < length rs \<and> date (sort_results rs ! i) = None \<longrightarrow>
         sort_key_of (sort_results rs ! j) \<le> datetime_min)
   \<and> (\<forall>r. date r = None \<longrightarrow> sort_key_of r = datetime_min)
   \<and> (\<forall>k. filter (\<lambda>r. sort_key_of r = k) (sort_results rs) = filter (\<lambda>r. sort_key_of r = k) rs)
   \<and> map date_str (sort_results [result_33, result_A, result_bad])
       = [asc ''15.01.2026'', asc ''01.01.2026'', asc ''ianuarie 2026'']"
proof (intro conjI allI impI)
  show "mset (sort_results rs) = mset rs" by (rule sort_results_mset)
  show "sorted (rev (map sort_key_of (sort_results rs)))" by (rule sort_results_sorted)
  show "filter (\<lambda>r. sort_key_of r = k) (sort_results rs) = filter (\<lambda>r. sort_key_of r = k) rs" for k
    by (rule sort_results_stable)
  show "sort_key_of r = datetime_min" if "date r = None" for r
    using that by (simp add: sort_key_of_def)
  show "sort_key_of (sort_results rs ! j) \<le> sort_key_of (sort_results rs ! i)"
    if "i < j \<and> j < length rs" for i j
    using that sort_results_nth by blast
  show "sort_key_of (sort_results rs ! j) \<le> datetime_min"
    if "i < j \<and> j < length rs \<and> date (sort_results rs ! i) = None" for i j
  proof -
    have "sort_key_of (sort_results rs ! i) = datetime_min"
      using that by (simp add: sort_key_of_def)
    then show ?thesis
      using that sort_results_nth [of i j rs] by simp
  qed
  show "map date_str (sort_results [result_33, result_A, result_bad])
       = [asc ''15.01.2026'', asc ''01.01.2026'', asc ''ianuarie 2026'']"
    by (simp add: sort_results_def sort_key_of_def datetime_min_def
        result_33_def result_A_def result_bad_def)
qed

theorem sort_results_descending_witness:
  "date result_33 = parse_date sample_ucd (asc ''01.01.2026'')
   \<and> date result_A = parse_date sample_ucd (asc ''15.01.2026'')
   \<and> date result_bad = parse_date sample_ucd (asc ''ianuarie 2026'') \<and> date result_bad = None
   \<and> sort_results [result_bad, result_33, result_A] = [result_A, result_33, result_bad]
   \<and> sort_key_of (sort_results [result_bad, result_33, result_A] ! 1)
       \<le> sort_key_of (sort_results [result_bad, result_33, result_A] ! 0)
   \<and> sort_key_of (sort_results [result_bad, result_33, result_A] ! 2) \<le> datetime_min"
proof -
  have s: "sort_results [result_bad, result_33, result_A] = [result_A, result_33, result_bad]"
    by (simp add: sort_results_def sort_key_of_def datetime_min_def
        result_33_def result_A_def result_bad_def)
  have d: "date result_bad = None" by (simp add: result_bad_def)
  show ?thesis
    using sample_dates s d sort_results_descending [of "[result_bad, result_33, result_A]"]
    by (simp add: sort_key_of_def datetime_min_def)
qed

subsection \<open>Recency\<close>

lemma new_results_filter:
  "new_results old rs = Inr new \<Longrightarrow> new = filter (\<lambda>r. py_in (pdf_url r) old = Inr False) rs"
  by (induction rs arbitrary: new) (auto split: sum.splits if_splits)

lemma scan_results_date:
  assumes "scan_rows u terms rows = Inr results" "r \<in> set results"
  shows "date r = parse_date u (date_str r)"
proof -
  obtain row where "scan_row u terms row = Inr (Some r)"
    using scan_rows_set(1) [OF assms(1)] assms(2) by auto
  then obtain url where "match_row u terms (row_title row) url (row_date_str row) = Some r"
    by (auto simp: scan_row_Some)
  then show ?thesis
    using match_row_fields(3,4) by metis
qed

lemma two_weeks_ago_of_Inr: "two_weeks_ago_of now = Inr tw \<Longrightarrow> tw = now - timedelta 14 0"
  by (auto simp: two_weeks_ago_of_def split: if_splits)

lemma new_results_dict:
  "new_results (JObj kvs) rs = Inr (filter (\<lambda>r. pdf_url r \<notin> fst ` set kvs) rs)"
  by (induction rs) (simp_all add: py_in_def)

lemma select_results_dict:
  "select_results (JObj kvs) tw rs
     = Inr (filter (is_recent tw) (filter (\<lambda>r. pdf_url r \<notin> fst ` set kvs) (sort_results rs)))"
  by (simp add: select_results_def new_results_dict recent_new_results_def)

text \<open>
  Claim C2, as the code has it. With \<open>now\<close> the clock reading of line 125, taken before
  the page is fetched: a matched row that is not in the record store is kept by the
  recency filter iff its date text parses and the date is not before \<open>now\<close> minus 14
  days. A row dated exactly 14 days before that reading is kept, a row dated 14 days and
  one second before it is dropped.
\<close>

theorem recency_filter_keeps_iff:
  assumes "two_weeks_ago_of (env_now e) = Inr two_weeks_ago"
    and "scan_rows (unicode e) terms rows = Inr results"
    and "new_results old (sort_results results) = Inr new"
  shows "select_results old two_weeks_ago results = Inr (recent_new_results two_weeks_ago new)
     \<and> (\<forall>r \<in> set new.
           r \<in> set (recent_new_results two_weeks_ago new) \<longleftrightarrow>
           (\<exists>d. parse_date (unicode e) (date_str r) = Some d \<and> env_now e - timedelta 14 0 \<le> d))
     \<and> (\<forall>r \<in> set new. parse_date (unicode e) (date_str r) = Some (env_now e - timedelta 14 0) \<longrightarrow>
           r \<in> set (recent_new_results two_weeks_ago new))
     \<and> (\<forall>r \<in> set new. parse_date (unicode e) (date_str r) = Some (env_now e - timedelta 14 1) \<longrightarrow>
           r \<notin> set (recent_new_results two_weeks_ago new))
     \<and> set (recent_new_results two_weeks_ago new) \<subseteq> set new"
proof -
  have tw: "two_weeks_ago = env_now e - timedelta 14 0"
    using assms(1) by (rule two_weeks_ago_of_Inr)
  have sub: "set new \<subseteq> set results"
    using new_results_filter [OF assms(3)] by (auto simp: sort_results_set)
  have d: "date r = parse_date (unicode e) (date_str r)" if "r \<in> set new" for r
    using scan_results_date [OF assms(2)] sub that by blast
  have lt: "env_now e - timedelta 14 1 < env_now e - timedelta 14 0"
    by (simp add: timedelta_def)
  have sel: "select_results old two_weeks_ago results = Inr (recent_new_results two_weeks_ago new)"
    using assms(3) by (simp add: select_results_def)
  have iff: "r \<in> set (recent_new_results two_weeks_ago new) \<longleftrightarrow>
           (\<exists>d. parse_date (unicode e) (date_str r) = Some d \<and> env_now e - timedelta 14 0 \<le> d)"
    if "r \<in> set new" for r
    using that d [OF that] tw
    by (auto simp: recent_new_results_def is_recent_def split: option.splits)
  show ?thesis
    using sel iff lt by (auto simp: recent_new_results_def)
qed

lemma sample_env_fields:
  "unicode sample_env = sample_ucd" "env_now sample_env = sample_now"
  "env_fetch sample_env = Page (Some [row_A, row_B])"
  "unicode slow_env = sample_ucd" "env_now slow_env = sample_now"
  "env_fetch slow_env = Page (Some [row_A, row_B])"
  "env_clock_at_filter slow_env = sample_now + timedelta 0 1"
  by (simp_all add: sample_env_def slow_env_def)

lemma sample_two_weeks_ago: "two_weeks_ago_of sample_now = Inr 63904032000000000"
  by (simp add: two_weeks_ago_of_def sample_now_def timedelta_def datetime_min_def)

lemma sample_select: "select_results (JObj []) 63904032000000000 [result_A] = Inr [result_A]"
  by (simp add: select_results_dict sort_results_def is_recent_def result_A_def)

theorem recency_filter_witness:
  "two_weeks_ago_of (env_now sample_env) = Inr 63904032000000000
   \<and> scan_rows (unicode sample_env) search_terms [row_A, row_B] = Inr [result_A]
   \<and> new_results (JObj []) (sort_results [result_A]) = Inr [result_A]
   \<and> parse_date (unicode sample_env) (date_str result_A) = Some (env_now sample_env - timedelta 14 0)
   \<and> select_results (JObj []) 63904032000000000 [result_A] = Inr [result_A]
   \<and> two_weeks_ago_of (env_now (sample_env\<lparr>env_now := sample_now + timedelta 0 1\<rparr>)) = Inr 63904032001000000
   \<and> parse_date (unicode sample_env) (date_str result_A)
       = Some (env_now (sample_env\<lparr>env_now := sample_now + timedelta 0 1\<rparr>) - timedelta 14 1)
   \<and> select_results (JObj []) 63904032001000000 [result_A] = Inr []"
proof -
  let ?later = "sample_env\<lparr>env_now := sample_now + timedelta 0 1\<rparr>"
  have tw: "two_weeks_ago_of (env_now sample_env) = Inr 63904032000000000"
    "two_weeks_ago_of (env_now ?later) = Inr 63904032001000000"
    by (simp_all add: sample_env_def two_weeks_ago_of_def sample_now_def timedelta_def datetime_min_def)
  have sc: "scan_rows (unicode sample_env) search_terms [row_A, row_B] = Inr [result_A]"
    "scan_rows (unicode ?later) search_terms [row_A, row_B] = Inr [result_A]"
    using scan_sample by (simp_all add: sample_env_def)
  have new: "new_results (JObj []) (sort_results [result_A]) = Inr [result_A]"
    by (simp add: sort_results_def py_in_def)
  have pd: "parse_date (unicode sample_env) (date_str result_A) = Some (env_now sample_env - timedelta 14 0)"
    "parse_date (unicode ?later) (date_str result_A) = Some (env_now ?later - timedelta 14 1)"
    by (simp_all add: sample_env_def result_A_def sample_now_def date_defs asc_def sample_ucd_def)
  note at_now = recency_filter_keeps_iff [OF tw(1) sc(1) new]
  note later = recency_filter_keeps_iff [OF tw(2) sc(2) new]
  have "result_A \<in> set (recent_new_results 63904032000000000 [result_A])"
    using at_now pd(1) by simp
  then have keep: "recent_new_results 63904032000000000 [result_A] = [result_A]"
    by (auto simp: recent_new_results_def split: if_splits)
  have "result_A \<notin> set (recent_new_results 63904032001000000 [result_A])"
    using later pd(2) by (simp add: timedelta_def)
  then have drop: "recent_new_results 63904032001000000 [result_A] = []"
    by (auto simp: recent_new_results_def split: if_splits)
  have sel: "select_results (JObj []) 63904032000000000 [result_A] = Inr [result_A]"
    "select_results (JObj []) 63904032001000000 [result_A] = Inr []"
    using at_now later keep drop by simp_all
  have u: "unicode ?later = unicode sample_env" by simp
  show ?thesis
    using tw sc(1) new pd sel unfolding u by simp
qed

text \<open>What the formatter writes for the first row.\<close>

lemma sample_subject: "subject_content [result_A] = asc ''[('Tudor Neculai', '971B')]''"
  by (simp add: subject_content_sort result_A_def asc_def)

lemma sample_mark: "mark_sent (asc ''29.01.2026 02:00:00'') (JObj []) [result_A] = Inr sample_store"
  by (simp add: py_setitem_def sent_record_def result_A_def sample_store_def sample_record_def)

lemma slow_run:
  "main slow_env Map.empty
     = (0, [SUBJECT_FILE \<mapsto> subject_content [result_A], BODY_FILE \<mapsto> body_content [result_A],
            RESULTS_FILE \<mapsto> sample_store_text])"
proof -
  have names: "SUBJECT_FILE \<noteq> RESULTS_FILE" "BODY_FILE \<noteq> RESULTS_FILE" "SUBJECT_FILE \<noteq> BODY_FILE"
    by (simp_all add: SUBJECT_FILE_def BODY_FILE_def RESULTS_FILE_def asc_def)
  have ld: "load_sent_results slow_env fs = JObj []" if "fs RESULTS_FILE = None" for fs
    using that by (simp add: load_sent_results_def)
  have d: "json_dump slow_env sample_store = sample_store_text"
    by (simp add: slow_env_def sample_env_def sample_dump_def)
  have w: "env_write slow_env f = WriteOk" for f
    by (simp add: slow_env_def sample_env_def)
  have ts: "env_timestamp slow_env = asc ''29.01.2026 02:00:00''"
    by (simp add: slow_env_def sample_env_def)
  have p: "persist_sent slow_env [SUBJECT_FILE \<mapsto> subject_content [result_A], BODY_FILE \<mapsto> body_content [result_A]] [result_A]
        = (Inr (), [SUBJECT_FILE \<mapsto> subject_content [result_A], BODY_FILE \<mapsto> body_content [result_A],
            RESULTS_FILE \<mapsto> sample_store_text])"
    using names sample_mark d w ts
    by (simp add: persist_sent_def ld save_results_def py_write_def)
  have f: "format_results_as_html slow_env Map.empty [result_A]
        = (Inr True, [SUBJECT_FILE \<mapsto> subject_content [result_A], BODY_FILE \<mapsto> body_content [result_A],
            RESULTS_FILE \<mapsto> sample_store_text])"
    using p w by (simp add: format_results_as_html_def write_file_output_def py_write_def)
  show ?thesis
    using f scan_sample sample_select sample_two_weeks_ago sample_env_fields
    by (simp add: main_def scrape_parking_auctions_def ld)
qed

text \<open>
  Claim C2 as written fails when the page takes a second to arrive: the row is dated 14
  days and one second before the clock at the time of the filter, and the run keeps it
  and sends it, because the threshold was computed from the reading of line 125.
\<close>

theorem slow_fetch_counterexample:
  "env_now slow_env \<le> env_clock_at_filter slow_env
   \<and> env_fetch slow_env = Page (Some [row_A, row_B])
   \<and> scan_rows (unicode slow_env) search_terms [row_A, row_B] = Inr [result_A]
   \<and> parse_date (unicode slow_env) (date_str result_A)
       = Some (env_clock_at_filter slow_env - timedelta 14 1)
   \<and> two_weeks_ago_of (env_now slow_env) = Inr 63904032000000000
   \<and> select_results (load_sent_results slow_env Map.empty) 63904032000000000 [result_A] = Inr [result_A]
   \<and> fst (main slow_env Map.empty) = 0
   \<and> snd (main slow_env Map.empty) SUBJECT_FILE = Some (asc ''[('Tudor Neculai', '971B')]'')
   \<and> snd (main slow_env Map.empty) RESULTS_FILE = Some sample_store_text"
proof -
  have names: "SUBJECT_FILE \<noteq> RESULTS_FILE" "BODY_FILE \<noteq> RESULTS_FILE" "SUBJECT_FILE \<noteq> BODY_FILE"
    by (simp_all add: SUBJECT_FILE_def BODY_FILE_def RESULTS_FILE_def asc_def)
  have c: "env_now slow_env \<le> env_clock_at_filter slow_env"
    by (simp add: slow_env_def sample_env_def timedelta_def)
  have pd: "parse_date (unicode slow_env) (date_str result_A)
       = Some (env_clock_at_filter slow_env - timedelta 14 1)"
    by (simp add: slow_env_def sample_env_def result_A_def sample_now_def date_defs asc_def sample_ucd_def)
  have ld: "load_sent_results slow_env Map.empty = JObj []"
    by (simp add: load_sent_results_def)
  show ?thesis
    using c pd ld names scan_sample sample_select sample_two_weeks_ago sample_env_fields
      sample_subject slow_run
    by simp
qed

subsection \<open>State loader\<close>

text \<open>
  Claim C7. The State Loader returns the empty dictionary when the record store file is
  absent, and also when it cannot be read or its text does not parse; otherwise it returns
  what the file holds. It has no other outcome: the function returns a value in every
  case.
\<close>

theorem load_sent_results_cases:
  "(fs RESULTS_FILE = None \<longrightarrow> load_sent_results e fs = JObj [])
   \<and> (fs RESULTS_FILE = Some stored \<and> (\<not> env_readable e RESULTS_FILE \<or> json_load e stored = None)
        \<longrightarrow> load_sent_results e fs = JObj [])
   \<and> (fs RESULTS_FILE = Some stored \<and> env_readable e RESULTS_FILE \<and> json_load e stored = Some v
        \<longrightarrow> load_sent_results e fs = v)"
  by (auto simp: load_sent_results_def)

theorem load_sent_results_witness:
  "load_sent_results sample_env Map.empty = JObj []
   \<and> sample_load (asc ''{'') = None
   \<and> load_sent_results sample_env [RESULTS_FILE \<mapsto> asc ''{''] = JObj []
   \<and> load_sent_results (sample_env\<lparr>env_readable := (\<lambda>f. False)\<rparr>) [RESULTS_FILE \<mapsto> sample_store_text] = JObj []
   \<and> sample_load sample_store_text = Some sample_store
   \<and> load_sent_results sample_env [RESULTS_FILE \<mapsto> sample_store_text] = sample_store"
proof -
  have bad: "sample_load (asc ''{'') = None" and good: "sample_load sample_store_text = Some sample_store"
    by (simp_all add: sample_load_def sample_store_text_def asc_def)
  show ?thesis
    using bad good
      load_sent_results_cases [where fs = "Map.empty" and e = sample_env]
      load_sent_results_cases [where fs = "[RESULTS_FILE \<mapsto> asc ''{'']" and stored = "asc ''{''" and e = sample_env]
      load_sent_results_cases [where fs = "[RESULTS_FILE \<mapsto> sample_store_text]"
         and stored = sample_store_text and e = "sample_env\<lparr>env_readable := (\<lambda>f. False)\<rparr>"]
      load_sent_results_cases [where fs = "[RESULTS_FILE \<mapsto> sample_store_text]"
         and stored = sample_store_text and e = sample_env and v = sample_store]
    by (simp add: sample_env_def)
qed

subsection \<open>State writer\<close>

lemma map_of_dict_set: "map_of (dict_set k v kvs) = (map_of kvs)(k \<mapsto> v)"
  by (induction kvs) (auto simp: fun_eq_iff)

lemma keys_dict_set: "fst ` set (dict_set k v kvs) = insert k (fst ` set kvs)"
  by (simp add: dom_map_of_conv_image_fst [symmetric] map_of_dict_set)

lemma mark_sent_dict: "mark_sent ts (JObj kvs) rs = Inr (JObj (marked ts rs kvs))"
  by (induction rs arbitrary: kvs) (simp_all add: marked_def py_setitem_def)

lemma keys_marked: "fst ` set (marked ts rs kvs) = fst ` set kvs \<union> pdf_url ` set rs"
  unfolding marked_def by (induction rs arbitrary: kvs) (auto simp: keys_dict_set)

lemma map_of_marked_other:
  "k \<notin> pdf_url ` set rs \<Longrightarrow> map_of (marked ts rs kvs) k = map_of kvs k"
  unfolding marked_def by (induction rs arbitrary: kvs) (auto simp: map_of_dict_set)

lemma map_of_marked_last:
  assumes "pdf_url r \<notin> pdf_url ` set after"
  shows "map_of (marked ts (before @ r # after) kvs) (pdf_url r) = Some (sent_record ts r)"
proof -
  have "marked ts (before @ r # after) kvs
        = marked ts after (dict_set (pdf_url r) (sent_record ts r) (marked ts before kvs))"
    by (simp add: marked_def)
  then show ?thesis
    using assms by (simp add: map_of_marked_other map_of_dict_set)
qed

text \<open>
  Claim C8. When the store write succeeds and the JSON library reads back what it wrote,
  persisting rows and then loading gives a dictionary that has the link of a persisted row
  as a key, and the record under that key has the row's title and raw date text (for the
  last row with that link, when several rows share one).
\<close>

theorem persist_then_load:
  assumes "load_sent_results e fs = JObj kvs"
    and "env_write e RESULTS_FILE = WriteOk"
    and "env_readable e RESULTS_FILE"
    and "\<forall>v. mark_sent (env_timestamp e) (JObj kvs) rows = Inr v \<longrightarrow> json_load e (json_dump e v) = Some v"
    and "rows = before @ r # after"
    and "pdf_url r \<notin> pdf_url ` set after"
  shows "\<exists>kvs'. persist_sent e fs rows = (Inr (), fs(RESULTS_FILE \<mapsto> json_dump e (JObj kvs')))
           \<and> load_sent_results e (snd (persist_sent e fs rows)) = JObj kvs'
           \<and> pdf_url r \<in> fst ` set kvs'
           \<and> map_of kvs' (pdf_url r)
               = Some (JObj [(asc ''title'', JStr (title r)), (asc ''date'', JStr (date_str r)),
                             (asc ''sent_at'', JStr (env_timestamp e))])"
proof -
  let ?kvs' = "marked (env_timestamp e) rows kvs"
  have ms: "mark_sent (env_timestamp e) (JObj kvs) rows = Inr (JObj ?kvs')"
    by (rule mark_sent_dict)
  then have rt: "json_load e (json_dump e (JObj ?kvs')) = Some (JObj ?kvs')"
    using assms(4) by blast
  have p: "persist_sent e fs rows = (Inr (), fs(RESULTS_FILE \<mapsto> json_dump e (JObj ?kvs')))"
    using ms assms(1,2) by (simp add: persist_sent_def save_results_def py_write_def)
  have l: "load_sent_results e (snd (persist_sent e fs rows)) = JObj ?kvs'"
    using p rt assms(3) by (simp add: load_sent_results_def)
  have k: "pdf_url r \<in> fst ` set ?kvs'"
    using assms(5) by (simp add: keys_marked)
  have m: "map_of ?kvs' (pdf_url r) = Some (sent_record (env_timestamp e) r)"
    unfolding assms(5) using assms(6) by (rule map_of_marked_last)
  show ?thesis
    using p l k m unfolding sent_record_def by blast
qed

theorem persist_then_load_witness:
  "load_sent_results sample_env Map.empty = JObj []
   \<and> env_write sample_env RESULTS_FILE = WriteOk \<and> env_readable sample_env RESULTS_FILE
   \<and> mark_sent (env_timestamp sample_env) (JObj []) [result_A] = Inr sample_store
   \<and> json_load sample_env (json_dump sample_env sample_store) = Some sample_store
   \<and> persist_sent sample_env Map.empty [result_A] = (Inr (), [RESULTS_FILE \<mapsto> sample_store_text])
   \<and> load_sent_results sample_env (snd (persist_sent sample_env Map.empty [result_A])) = sample_store
   \<and> (\<exists>kvs'. sample_store = JObj kvs' \<and> map_of kvs' (pdf_url result_A)
         = Some (JObj [(asc ''title'', JStr (title result_A)), (asc ''date'', JStr (date_str result_A)),
                       (asc ''sent_at'', JStr (asc ''29.01.2026 02:00:00''))]))"
proof -
  have l: "load_sent_results sample_env Map.empty = JObj []"
    by (simp add: load_sent_results_def)
  have w: "env_write sample_env RESULTS_FILE = WriteOk" "env_readable sample_env RESULTS_FILE"
    by (simp_all add: sample_env_def)
  have ts: "env_timestamp sample_env = asc ''29.01.2026 02:00:00''"
    by (simp add: sample_env_def)
  have ms: "mark_sent (env_timestamp sample_env) (JObj []) [result_A] = Inr sample_store"
    unfolding ts by (rule sample_mark)
  have rt: "json_load sample_env (json_dump sample_env sample_store) = Some sample_store"
    by (simp add: sample_env_def sample_load_def sample_dump_def)
  have rt': "\<forall>v. mark_sent (env_timestamp sample_env) (JObj []) [result_A] = Inr v
               \<longrightarrow> json_load sample_env (json_dump sample_env v) = Some v"
    using ms rt by simp
  have sp: "[result_A] = [] @ result_A # []" and la: "pdf_url result_A \<notin> pdf_url ` set []"
    by simp_all
  have d: "json_dump sample_env sample_store = sample_store_text"
    by (simp add: sample_env_def sample_dump_def)
  have p: "persist_sent sample_env Map.empty [result_A] = (Inr (), [RESULTS_FILE \<mapsto> sample_store_text])"
    using ms l w d by (simp add: persist_sent_def save_results_def py_write_def)
  from persist_then_load [OF l w rt' sp la]
  obtain kvs' where a: "load_sent_results sample_env (snd (persist_sent sample_env Map.empty [result_A])) = JObj kvs'"
    and b: "map_of kvs' (pdf_url result_A)
         = Some (JObj [(asc ''title'', JStr (title result_A)), (asc ''date'', JStr (date_str result_A)),
                       (asc ''sent_at'', JStr (env_timestamp sample_env))])"
    by blast
  have c: "load_sent_results sample_env (snd (persist_sent sample_env Map.empty [result_A])) = sample_store"
    using p rt d w by (simp add: load_sent_results_def)
  have "sample_store = JObj kvs'"
    using a c by simp
  then have ex: "\<exists>kvs'. sample_store = JObj kvs' \<and> map_of kvs' (pdf_url result_A)
         = Some (JObj [(asc ''title'', JStr (title result_A)), (asc ''date'', JStr (date_str result_A)),
                       (asc ''sent_at'', JStr (asc ''29.01.2026 02:00:00''))])"
    using b ts by auto
  show ?thesis
    using l w ms rt p c ex by blast
qed

subsection \<open>Dedup\<close>

lemma is_recent_mono: "tw \<le> tw' \<Longrightarrow> is_recent tw' r \<Longrightarrow> is_recent tw r"
  by (auto simp: is_recent_def split: option.splits)

text \<open>
  Claim C9. If the filter returned \<open>out\<close> for a store and the store is then extended by
  the links of \<open>out\<close> (lines 108-109), the filter returns nothing for the same rows, at
  the same or any later clock reading; and whatever rows and clock it is given later, it
  never returns a row whose link is recorded.
\<close>

theorem dedup_idempotent:
  assumes "select_results (JObj kvs) two_weeks_ago results = Inr out"
    and "two_weeks_ago \<le> two_weeks_ago'"
  shows "\<exists>kvs'. mark_sent timestamp (JObj kvs) out = Inr (JObj kvs')
           \<and> fst ` set kvs' = fst ` set kvs \<union> pdf_url ` set out
           \<and> select_results (JObj kvs') two_weeks_ago' results = Inr []
           \<and> (\<forall>results' tw out'. select_results (JObj kvs') tw results' = Inr out' \<longrightarrow>
                  (\<forall>r \<in> set out'. pdf_url r \<notin> fst ` set kvs \<union> pdf_url ` set out))"
proof -
  let ?kvs' = "marked timestamp out kvs"
  have out: "out = filter (is_recent two_weeks_ago) (filter (\<lambda>r. pdf_url r \<notin> fst ` set kvs) (sort_results results))"
    using assms(1) by (simp add: select_results_dict)
  have keys: "fst ` set ?kvs' = fst ` set kvs \<union> pdf_url ` set out"
    by (rule keys_marked)
  have "filter (is_recent two_weeks_ago') (filter (\<lambda>r. pdf_url r \<notin> fst ` set ?kvs') (sort_results results)) = []"
  proof -
    have "\<not> is_recent two_weeks_ago' r"
      if "r \<in> set (sort_results results)" "pdf_url r \<notin> fst ` set ?kvs'" for r
    proof
      assume "is_recent two_weeks_ago' r"
      then have "is_recent two_weeks_ago r"
        using assms(2) is_recent_mono by blast
      moreover have "pdf_url r \<notin> fst ` set kvs"
        using that(2) keys by blast
      ultimately have "r \<in> set out"
        using that(1) out by simp
      then show False
        using that(2) keys by blast
    qed
    then show ?thesis
      by (auto simp: filter_empty_conv)
  qed
  then have again: "select_results (JObj ?kvs') two_weeks_ago' results = Inr []"
    by (simp only: select_results_dict)
  have never: "\<forall>results' tw out'. select_results (JObj ?kvs') tw results' = Inr out' \<longrightarrow>
                  (\<forall>r \<in> set out'. pdf_url r \<notin> fst ` set kvs \<union> pdf_url ` set out)"
    using keys by (auto simp: select_results_dict)
  show ?thesis
    using mark_sent_dict [of timestamp kvs out] keys again never by blast
qed

theorem dedup_idempotent_witness:
  "select_results (JObj []) 63904032000000000 [result_bad, result_33, result_A] = Inr [result_A]
   \<and> mark_sent (asc ''29.01.2026 02:00:00'') (JObj []) [result_A] = Inr sample_store
   \<and> select_results sample_store 63904032000000000 [result_bad, result_33, result_A] = Inr []"
proof -
  have s: "select_results (JObj []) 63904032000000000 [result_bad, result_33, result_A] = Inr [result_A]"
    by (simp add: select_results_dict sort_results_def sort_key_of_def datetime_min_def is_recent_def
        result_33_def result_A_def result_bad_def)
  show ?thesis
    using s sample_mark dedup_idempotent [OF s order_refl, of "asc ''29.01.2026 02:00:00''"]
    by auto
qed

subsection \<open>Artifact files\<close>

lemma file_names_distinct:
  "SUBJECT_FILE \<noteq> RESULTS_FILE" "BODY_FILE \<noteq> RESULTS_FILE" "SUBJECT_FILE \<noteq> BODY_FILE"
  by (simp_all add: SUBJECT_FILE_def BODY_FILE_def RESULTS_FILE_def asc_def)

lemma write_file_output_other:
  "filename \<noteq> other \<Longrightarrow> snd (write_file_output e fs filename content) other = fs other"
  by (simp add: write_file_output_def py_write_def split: write_outcome.splits)

lemma write_file_output_fails:
  "env_write e filename \<noteq> WriteOk \<Longrightarrow> fst (write_file_output e fs filename content) = Inl (SystemExit 1)"
  by (simp add: write_file_output_def py_write_def split: write_outcome.splits)

lemma write_file_output_result:
  "fst (write_file_output e fs filename content) = Inl (SystemExit 1)
   \<or> fst (write_file_output e fs filename content) = Inr ()"
  by (simp add: write_file_output_def py_write_def split: write_outcome.splits)

lemma format_fails:
  assumes "recent \<noteq> []"
    and "env_write e SUBJECT_FILE \<noteq> WriteOk \<or> env_write e BODY_FILE \<noteq> WriteOk"
  shows "fst (format_results_as_html e fs recent) = Inl (SystemExit 1)
       \<and> snd (format_results_as_html e fs recent) RESULTS_FILE = fs RESULTS_FILE"
proof -
  obtain r1 fs1 where w1: "write_file_output e fs SUBJECT_FILE (subject_content recent) = (r1, fs1)"
    by (cases "write_file_output e fs SUBJECT_FILE (subject_content recent)")
  obtain r2 fs2 where w2: "write_file_output e fs1 BODY_FILE (body_content recent) = (r2, fs2)"
    by (cases "write_file_output e fs1 BODY_FILE (body_content recent)")
  have s1: "fs1 RESULTS_FILE = fs RESULTS_FILE"
    using write_file_output_other [OF file_names_distinct(1), of e fs "subject_content recent"] w1 by simp
  have s2: "fs2 RESULTS_FILE = fs RESULTS_FILE"
    using write_file_output_other [OF file_names_distinct(2), of e fs1 "body_content recent"] w2 s1 by simp
  have r1: "r1 = Inl (SystemExit 1) \<or> r1 = Inr ()"
    using write_file_output_result [of e fs SUBJECT_FILE "subject_content recent"] w1 by simp
  show ?thesis
  proof (cases "env_write e SUBJECT_FILE = WriteOk")
    case False
    then have "r1 = Inl (SystemExit 1)"
      using write_file_output_fails [of e SUBJECT_FILE fs "subject_content recent"] w1 by simp
    then show ?thesis
      using assms(1) w1 s1 by (simp add: format_results_as_html_def)
  next
    case True
    then have "env_write e BODY_FILE \<noteq> WriteOk" using assms(2) by blast
    then have b: "r2 = Inl (SystemExit 1)"
      using write_file_output_fails [of e BODY_FILE fs1 "body_content recent"] w2 by simp
    from r1 show ?thesis
    proof
      assume "r1 = Inl (SystemExit 1)"
      then show ?thesis
        using assms(1) w1 s1 by (simp add: format_results_as_html_def)
    next
      assume "r1 = Inr ()"
      then show ?thesis
        using assms(1) w1 w2 b s2 by (simp add: format_results_as_html_def)
    qed
  qed
qed

text \<open>
  Claim C6. When the run reaches the Formatter with rows to notify and writing the
  subject file or the body file fails, the Formatter exits with status 1, the process exit
  status is 1, and the record store file is what it was before the run.
\<close>

theorem artifact_write_failure_aborts:
  assumes "two_weeks_ago_of (env_now e) = Inr two_weeks_ago"
    and "env_fetch e = Page (Some rows)"
    and "scan_rows (unicode e) search_terms rows = Inr results"
    and "select_results (load_sent_results e fs) two_weeks_ago results = Inr recent"
    and "recent \<noteq> []"
    and "env_write e SUBJECT_FILE \<noteq> WriteOk \<or> env_write e BODY_FILE \<noteq> WriteOk"
  shows "fst (format_results_as_html e fs recent) = Inl (SystemExit 1)
       \<and> fst (main e fs) = 1
       \<and> snd (main e fs) RESULTS_FILE = fs RESULTS_FILE
       \<and> load_sent_results e (snd (main e fs)) = load_sent_results e fs"
proof -
  obtain fs' where f: "format_results_as_html e fs recent = (Inl (SystemExit 1), fs')"
    and same: "fs' RESULTS_FILE = fs RESULTS_FILE"
    using format_fails [OF assms(5,6), of fs]
    by (cases "format_results_as_html e fs recent") auto
  have "scrape_parking_auctions e fs search_terms = (Inl (SystemExit 1), fs')"
    using assms(1-5) f by (simp add: scrape_parking_auctions_def handled_def)
  then have m: "main e fs = (1, fs')"
    by (simp add: main_def)
  show ?thesis
    using f m same by (simp add: load_sent_results_def)
qed

theorem artifact_write_failure_witness:
  "two_weeks_ago_of (env_now body_fails_env) = Inr 63904032000000000
   \<and> env_fetch body_fails_env = Page (Some [row_A, row_B])
   \<and> scan_rows (unicode body_fails_env) search_terms [row_A, row_B] = Inr [result_A]
   \<and> select_results (load_sent_results body_fails_env Map.empty) 63904032000000000 [result_A] = Inr [result_A]
   \<and> env_write body_fails_env BODY_FILE \<noteq> WriteOk
   \<and> fst (main body_fails_env Map.empty) = 1
   \<and> snd (main body_fails_env Map.empty) RESULTS_FILE = None
   \<and> main body_fails_env Map.empty
       = (1, [SUBJECT_FILE \<mapsto> asc ''[('Tudor Neculai', '971B')]'', BODY_FILE \<mapsto> asc ''<h4>Found'']) "
proof -
  have tw: "two_weeks_ago_of (env_now body_fails_env) = Inr 63904032000000000"
    using sample_two_weeks_ago by (simp add: body_fails_env_def sample_env_def)
  have fetch: "env_fetch body_fails_env = Page (Some [row_A, row_B])"
    by (simp add: body_fails_env_def sample_env_def)
  have sc: "scan_rows (unicode body_fails_env) search_terms [row_A, row_B] = Inr [result_A]"
    using scan_sample by (simp add: body_fails_env_def sample_env_def)
  have ld: "load_sent_results body_fails_env Map.empty = JObj []"
    by (simp add: load_sent_results_def)
  have sel: "select_results (load_sent_results body_fails_env Map.empty) 63904032000000000 [result_A] = Inr [result_A]"
    using sample_select ld by simp
  have ne: "[result_A] \<noteq> []" by simp
  have w: "env_write body_fails_env BODY_FILE \<noteq> WriteOk" "env_write body_fails_env SUBJECT_FILE = WriteOk"
    "env_write body_fails_env BODY_FILE = WriteFailsAfter 9"
    using file_names_distinct(3) by (simp_all add: body_fails_env_def sample_env_def)
  have body: "take 9 (body_content [result_A]) = asc ''<h4>Found''"
    by (simp add: body_content_def asc_def)
  have fmt: "format_results_as_html body_fails_env Map.empty [result_A]
       = (Inl (SystemExit 1), [SUBJECT_FILE \<mapsto> asc ''[('Tudor Neculai', '971B')]'', BODY_FILE \<mapsto> asc ''<h4>Found''])"
    using w sample_subject body by (simp add: format_results_as_html_def write_file_output_def py_write_def)
  have run: "main body_fails_env Map.empty
       = (1, [SUBJECT_FILE \<mapsto> asc ''[('Tudor Neculai', '971B')]'', BODY_FILE \<mapsto> asc ''<h4>Found''])"
    using tw fetch sc sel fmt
    by (simp add: main_def scrape_parking_auctions_def handled_def)
  have w': "env_write body_fails_env SUBJECT_FILE \<noteq> WriteOk \<or> env_write body_fails_env BODY_FILE \<noteq> WriteOk"
    using w(1) by simp
  note abort = artifact_write_failure_aborts [OF tw fetch sc sel ne w']
  show ?thesis
    using tw fetch sc sel w(1) run abort by simp
qed

end
